theory Spec2Isabelle
  imports Main "HOL-Library.Word" "HOL-Library.Code_Target_Numeral"
begin

unbundle bit_operations_syntax

section \<open>JavaScript values and errors\<close>

text \<open>
  The server (\<^verbatim>\<open>src/server.js\<close>) computes with BigInt values and strings. An exception
  of the source is a value of \<open>js_error\<close>; a fallible computation returns
  \<open>js_error + 'a\<close>, with \<open>Inl\<close> for the exception.

  The values that reach the hash function, the template literals and the session
  variables are BigInts, strings and \<^verbatim>\<open>undefined\<close> (a field that the peer left out).
  A string is a list of characters; a \<open>char\<close> stands for the code unit of that number,
  so the strings of the model are the JavaScript strings over code units below 256.
\<close>

datatype js_error = RangeError | SyntaxError | TypeError

datatype jsval = JUndefined | JString string | JBigInt int

type_synonym byte = "8 word"

section \<open>BigInt arithmetic\<close>

text \<open>
  The BigInt operator \<^verbatim>\<open>%\<close> truncates towards zero: the remainder has the sign of
  the dividend. A zero divisor raises RangeError; the divisors of the source are the
  literal \<^verbatim>\<open>2n\<close>, the constant \<^verbatim>\<open>N\<close> (which is not zero) and the modulus of
  \<^verbatim>\<open>bigIntExponentiation\<close>, where the model tests it.
\<close>

definition bigint_rem :: "int \<Rightarrow> int \<Rightarrow> int" where
  "bigint_rem a b = sgn a * (\<bar>a\<bar> mod \<bar>b\<bar>)"

text \<open>
  \<^verbatim>\<open>bigIntExponentiation\<close>, lines 54 to 65. The loop is \<open>exp_loop\<close>, over the
  variables \<^verbatim>\<open>result\<close>, \<^verbatim>\<open>num\<close> and \<^verbatim>\<open>power\<close>; \<^verbatim>\<open>power >> 1n\<close> is
  \<open>drop_bit 1\<close>. The modulus does not change, so the only \<^verbatim>\<open>%\<close> that can raise is the
  first one, before the loop.
\<close>

function exp_loop :: "int \<Rightarrow> int \<Rightarrow> int \<Rightarrow> int \<Rightarrow> int" where
  "exp_loop result num power' modulus =
     (if power' > 0 then
        exp_loop (if bigint_rem power' 2 = 1 then bigint_rem (result * num) modulus else result)
                 (bigint_rem (num * num) modulus) (drop_bit 1 power') modulus
      else result)"
  by pat_completeness auto
termination
proof (relation "measure (\<lambda>(result, num, power', modulus). nat power')")
  show "wf (measure (\<lambda>(result, num, power', modulus). nat power'))"
    by simp
next
  fix result num power' modulus :: int
  assume pos: "0 < power'"
  then have "power' div 2 < power'"
    by linarith
  with pos show "((if bigint_rem power' 2 = 1 then bigint_rem (result * num) modulus else result,
               bigint_rem (num * num) modulus, drop_bit 1 power', modulus),
              (result, num, power', modulus))
             \<in> measure (\<lambda>(result, num, power', modulus). nat power')"
    by (simp add: drop_bit_eq_div)
qed

declare exp_loop.simps [simp del]

definition bigIntExponentiation :: "int \<Rightarrow> int \<Rightarrow> int \<Rightarrow> js_error + int" where
  "bigIntExponentiation num power' modulus =
     (if modulus = 0 then Inl RangeError
      else Inr (exp_loop 1 (bigint_rem num modulus) power' modulus))"

section \<open>Numerals as text\<close>

definition digit_char :: "nat \<Rightarrow> char" where
  "digit_char d = ''0123456789abcdef'' ! d"

text \<open>The digits of a natural number in radix 10 and in radix 16 (lowercase).\<close>

fun dec_digits :: "nat \<Rightarrow> string" where
  "dec_digits n = (if n < 10 then [digit_char n] else dec_digits (n div 10) @ [digit_char (n mod 10)])"

fun hex_digits :: "nat \<Rightarrow> string" where
  "hex_digits n = (if n < 16 then [digit_char n] else hex_digits (n div 16) @ [digit_char (n mod 16)])"

declare dec_digits.simps [simp del] hex_digits.simps [simp del]

text \<open>\<^verbatim>\<open>BigInt.prototype.toString()\<close> and \<^verbatim>\<open>BigInt.prototype.toString(16)\<close>.\<close>

definition bigint_toString :: "int \<Rightarrow> string" where
  "bigint_toString n = (if n < 0 then CHR ''-'' # dec_digits (nat (- n)) else dec_digits (nat n))"

definition bigint_toString16 :: "int \<Rightarrow> string" where
  "bigint_toString16 n = (if n < 0 then CHR ''-'' # hex_digits (nat (- n)) else hex_digits (nat n))"

text \<open>
  The conversion to a string inside a template literal (\<^verbatim>\<open>`0x${A}`\<close>), and the one
  \<^verbatim>\<open>Array.prototype.join\<close> applies to an element: \<^verbatim>\<open>join\<close> renders
  \<^verbatim>\<open>undefined\<close> as the empty string.
\<close>

fun template_text :: "jsval \<Rightarrow> string" where
  "template_text JUndefined = ''undefined''"
| "template_text (JString t) = t"
| "template_text (JBigInt n) = bigint_toString n"

fun join_text :: "jsval \<Rightarrow> string" where
  "join_text JUndefined = []"
| "join_text (JString t) = t"
| "join_text (JBigInt n) = bigint_toString n"

fun join :: "string \<Rightarrow> jsval list \<Rightarrow> string" where
  "join sep [] = []"
| "join sep [x] = join_text x"
| "join sep (x # y # ys) = join_text x @ sep @ join sep (y # ys)"

subsection \<open>Parsing a hexadecimal BigInt\<close>

definition hex_digit_value :: "char \<Rightarrow> nat option" where
  "hex_digit_value c =
     (let u = (of_char c :: nat) in
      if 48 \<le> u \<and> u \<le> 57 then Some (u - 48)
      else if 97 \<le> u \<and> u \<le> 102 then Some (u - 87)
      else if 65 \<le> u \<and> u \<le> 70 then Some (u - 55)
      else None)"

text \<open>The white space of the language among the code units below 256.\<close>

definition is_whitespace :: "char \<Rightarrow> bool" where
  "is_whitespace c = ((of_char c :: nat) \<in> {9, 10, 11, 12, 13, 32, 160})"

text \<open>\<open>hex_prefix acc cs\<close> reads hexadecimal digits while there are some.\<close>

fun hex_prefix :: "nat \<Rightarrow> string \<Rightarrow> nat \<times> string" where
  "hex_prefix acc [] = (acc, [])"
| "hex_prefix acc (c # cs) =
     (case hex_digit_value c of
        Some d \<Rightarrow> hex_prefix (16 * acc + d) cs
      | None \<Rightarrow> (acc, c # cs))"

text \<open>
  \<^verbatim>\<open>BigInt(`0x${t}`)\<close>: the argument of \<open>BigInt_0x\<close> is the text after the prefix.
  The text \<^verbatim>\<open>0x\<close> must be followed by one hexadecimal digit at least, of either case;
  white space may follow the digits, nothing else; otherwise SyntaxError.
\<close>

definition BigInt_0x :: "string \<Rightarrow> js_error + int" where
  "BigInt_0x t =
     (case t of
        [] \<Rightarrow> Inl SyntaxError
      | c # cs \<Rightarrow>
          (case hex_digit_value c of
             None \<Rightarrow> Inl SyntaxError
           | Some d \<Rightarrow>
               (case hex_prefix d cs of
                  (n, rest) \<Rightarrow>
                    if list_all is_whitespace rest then Inr (int n) else Inl SyntaxError)))"

section \<open>The hash function and the random salt\<close>

text \<open>
  \<^verbatim>\<open>hash\<close>, lines 13 to 22. SHA-256 comes from the \<^verbatim>\<open>crypto\<close> module of the
  platform and is the parameter \<open>sha256\<close>, from the text to the bytes of its digest;
  \<^verbatim>\<open>digest("hex")\<close> writes two lowercase digits for every byte.
\<close>

definition hex_of_byte :: "byte \<Rightarrow> string" where
  "hex_of_byte b = [digit_char (unat b div 16), digit_char (unat b mod 16)]"

definition digest_hex :: "byte list \<Rightarrow> string" where
  "digest_hex bs = concat (map hex_of_byte bs)"

definition hash :: "(string \<Rightarrow> byte list) \<Rightarrow> jsval list \<Rightarrow> js_error + int" where
  "hash sha256 args = (let text = join '':'' args in BigInt_0x (digest_hex (sha256 text)))"

text \<open>
  \<^verbatim>\<open>generateSalt\<close>, lines 36 to 43. The argument is the content of \<^verbatim>\<open>saltBytes\<close>
  after \<^verbatim>\<open>crypto.getRandomValues\<close> has filled it.
\<close>

definition padStart2 :: "string \<Rightarrow> string" where
  "padStart2 t = replicate (2 - length t) CHR ''0'' @ t"

definition generateSalt :: "byte list \<Rightarrow> js_error + int" where
  "generateSalt saltBytes =
     (let saltString = concat (map (\<lambda>byte. padStart2 (hex_digits (unat byte))) saltBytes)
      in BigInt_0x saltString)"

subsection \<open>The words of the specification about the digest\<close>

text \<open>
  The specification speaks of raw digest bytes interpreted as a big-endian unsigned
  integer (\<open>be_uint\<close>), and of integer parts rendered as lowercase hexadecimal without
  prefix, strings as they are, joined with a fixed separator (\<open>spec_digest_text\<close>).
  \<open>dec_value\<close> reads a text of decimal digits.
\<close>

definition be_uint :: "byte list \<Rightarrow> nat" where
  "be_uint bs = foldl (\<lambda>acc b. 256 * acc + unat b) 0 bs"

fun spec_part_text :: "jsval \<Rightarrow> string" where
  "spec_part_text JUndefined = []"
| "spec_part_text (JString t) = t"
| "spec_part_text (JBigInt n) = bigint_toString16 n"

fun spec_digest_text :: "jsval list \<Rightarrow> string" where
  "spec_digest_text [] = []"
| "spec_digest_text [x] = spec_part_text x"
| "spec_digest_text (x # y # ys) = spec_part_text x @ '':'' @ spec_digest_text (y # ys)"

definition dec_value :: "string \<Rightarrow> nat" where
  "dec_value t = foldl (\<lambda>acc c. 10 * acc + (of_char c - 48)) 0 t"

section \<open>Public parameters\<close>

text \<open>
  Lines 67 to 83: the prime \<^verbatim>\<open>N\<close> is the text of \<^verbatim>\<open>dhparam\<close> without its colons,
  read as a hexadecimal numeral; \<^verbatim>\<open>g\<close> is 2; \<^verbatim>\<open>k\<close> is computed once, when the
  module is loaded, and the handlers take its value as the parameter \<open>kv\<close>.
\<close>

definition N :: int where
  "N = 0x00aad9eae2b53d86fb885199eacf14cd65f986251ee9f942e597146c49dc4c38e84c4424dff90fc28ecd66113795dffe53a6c5501f618bfde89c174d846b086d29763979fc91eac2afadb511abde3d7bd67f318cdc292e9a396a6ccf5f6c240c1021928b855b67f0ae62932deb75a6bcf70c718ccd960d5358e37b7671a98b2a93"

definition g :: int where
  "g = 2"

definition k :: "(string \<Rightarrow> byte list) \<Rightarrow> js_error + int" where
  "k sha256 = hash sha256 [JBigInt N, JBigInt g]"

abbreviation statusOk :: int where "statusOk \<equiv> 200"
abbreviation statusUnauthorized :: int where "statusUnauthorized \<equiv> 401"

section \<open>The login session\<close>

text \<open>
  The variables that the connection handler declares (lines 138 to 151) are the
  fields of \<open>session\<close>: \<^verbatim>\<open>_I\<close> is \<open>sess_I\<close>, and so on. \<^verbatim>\<open>_I\<close> and \<^verbatim>\<open>_s\<close> start as
  the empty string; \<^verbatim>\<open>_s\<close> holds a BigInt later.
\<close>

record session =
  sess_I :: jsval
  sess_A :: int
  sess_B :: int
  sess_b :: int
  sess_s :: jsval
  sess_v :: int
  sess_u :: int
  sess_K :: int

definition initial_session :: session where
  "initial_session =
     \<lparr>sess_I = JString [], sess_A = 0, sess_B = 0, sess_b = 0,
      sess_s = JString [], sess_v = 0, sess_u = 0, sess_K = 0\<rparr>"

text \<open>
  An inbound message after \<^verbatim>\<open>JSON.parse\<close>: \<open>serial\<close> is \<open>None\<close> when the tag is
  missing or is not an integer (no \<^verbatim>\<open>case\<close> label is strictly equal to it then);
  \<open>data\<close> is \<open>None\<close> when the message has no \<^verbatim>\<open>data\<close> or \<^verbatim>\<open>null\<close> there. The
  fields of \<open>data\<close> that the handler reads are strings on the wire, or left out.
\<close>

record payload =
  data_I :: jsval
  data_A :: jsval
  data_C_M :: jsval

record message =
  serial :: "int option"
  data :: "payload option"

text \<open>
  What the user store answers to \<^verbatim>\<open>db.all\<close> (an error, or the rows with their columns
  \<^verbatim>\<open>s\<close> and \<^verbatim>\<open>v\<close>, which are text), and the bytes that \<^verbatim>\<open>crypto.getRandomValues\<close>
  delivers for an array of the given length, at the time of one message.
\<close>

datatype db_result = DbError string | DbRows "(string \<times> string) list"

record world =
  db_all :: "jsval \<Rightarrow> db_result"
  getRandomValues :: "nat \<Rightarrow> byte list"

text \<open>
  What a handler does to the outside, in order: \<^verbatim>\<open>ws.send\<close> of a message,
  \<^verbatim>\<open>ws.close()\<close>, \<^verbatim>\<open>ws.close(code, reason)\<close> where the reason is the JSON text of
  a status, and the query of the user store. Console output is not recorded; the
  evaluation of its arguments is, where it can raise.
\<close>

datatype out_msg =
    Serial int
  | SerialSB int string string
  | SerialError int string

datatype effect =
    Send out_msg
  | Close
  | CloseStatus int int
  | DbAll jsval

record outcome =
  state :: session
  effects :: "effect list"
  thrown :: "js_error option"

definition returned :: "session \<Rightarrow> effect list \<Rightarrow> outcome" where
  "returned st es = \<lparr>state = st, effects = es, thrown = None\<rparr>"

definition throw :: "session \<Rightarrow> effect list \<Rightarrow> js_error \<Rightarrow> outcome" where
  "throw st es e = \<lparr>state = st, effects = es, thrown = Some e\<rparr>"

text \<open>A new connection starts with fresh variables and the message with serial 1 (line 153).\<close>

definition on_connection :: "session \<times> effect list" where
  "on_connection = (initial_session, [Send (Serial 1)])"

text \<open>
  The callback of \<^verbatim>\<open>db.all\<close>, lines 167 to 188. \<^verbatim>\<open>rows[0]\<close> of an empty array is
  \<^verbatim>\<open>undefined\<close>, and taking \<^verbatim>\<open>s\<close> and \<^verbatim>\<open>v\<close> out of it raises TypeError.
\<close>

definition db_callback :: "int \<Rightarrow> world \<Rightarrow> session \<Rightarrow> db_result \<Rightarrow> outcome" where
  "db_callback kv w st res =
     (case res of
        DbError error \<Rightarrow> returned st [Send (SerialError 0x99 error), Close]
      | DbRows rows \<Rightarrow>
          (case rows of
             [] \<Rightarrow> throw st [] TypeError
           | (s, v) # _ \<Rightarrow>
               (case BigInt_0x s of
                  Inl e \<Rightarrow> throw st [] e
                | Inr s' \<Rightarrow>
                    (let st1 = st\<lparr>sess_s := JBigInt s'\<rparr> in
                     case BigInt_0x v of
                       Inl e \<Rightarrow> throw st1 [] e
                     | Inr v' \<Rightarrow>
                         (let st2 = st1\<lparr>sess_v := v'\<rparr> in
                          case generateSalt (getRandomValues w 32) of
                            Inl e \<Rightarrow> throw st2 [] e
                          | Inr r \<Rightarrow>
                              (let b = bigint_rem r N; st3 = st2\<lparr>sess_b := b\<rparr> in
                               case bigIntExponentiation g b N of
                                 Inl e \<Rightarrow> throw st3 [] e
                               | Inr gb \<Rightarrow>
                                   (let B = bigint_rem (kv * sess_v st3 + gb) N;
                                        st4 = st3\<lparr>sess_B := B\<rparr>
                                    in returned st4 [Send (SerialSB 3 s (bigint_toString16 B))])))))))"

text \<open>
  \<^verbatim>\<open>case 2\<close>, lines 158 to 189. The callback runs when the store answers; the model
  runs it within the step of the message, after the effects of the handler itself.
\<close>

definition phase2 :: "int \<Rightarrow> world \<Rightarrow> session \<Rightarrow> payload option \<Rightarrow> outcome" where
  "phase2 kv w st dat =
     (case dat of
        None \<Rightarrow> throw st [] TypeError
      | Some d \<Rightarrow>
          (let st1 = st\<lparr>sess_I := data_I d\<rparr> in
           case BigInt_0x (template_text (data_A d)) of
             Inl e \<Rightarrow> throw st1 [] e
           | Inr a \<Rightarrow>
               (let st2 = st1\<lparr>sess_A := a\<rparr> in
                if bigint_rem a N = 0 then returned st2 [Close]
                else
                  (let r = db_callback kv w st2 (db_all w (data_I d))
                   in r\<lparr>effects := DbAll (data_I d) # effects r\<rparr>))))"

text \<open>\<^verbatim>\<open>case 3\<close>, lines 190 to 196.\<close>

definition phase3 :: "(string \<Rightarrow> byte list) \<Rightarrow> session \<Rightarrow> outcome" where
  "phase3 sha256 st =
     (case hash sha256 [JBigInt (sess_A st), JBigInt (sess_B st)] of
        Inl e \<Rightarrow> throw st [] e
      | Inr u \<Rightarrow> returned (st\<lparr>sess_u := u\<rparr>) [Send (Serial 4)])"

text \<open>\<^verbatim>\<open>case 5\<close>, lines 197 to 205.\<close>

definition phase5 :: "(string \<Rightarrow> byte list) \<Rightarrow> session \<Rightarrow> outcome" where
  "phase5 sha256 st =
     (case bigIntExponentiation (sess_v st) (sess_u st) N of
        Inl e \<Rightarrow> throw st [] e
      | Inr x \<Rightarrow>
          (case bigIntExponentiation (sess_A st * x) (sess_b st) N of
             Inl e \<Rightarrow> throw st [] e
           | Inr S \<Rightarrow>
               (case hash sha256 [JBigInt S] of
                  Inl e \<Rightarrow> throw st [] e
                | Inr K \<Rightarrow> returned (st\<lparr>sess_K := K\<rparr>) [Send (Serial 6)])))"

text \<open>
  \<^verbatim>\<open>case 7\<close>, lines 206 to 221. \<open>S_M\<close> is the server's proof; the arguments of the
  outer call are evaluated from left to right.
\<close>

definition S_M :: "(string \<Rightarrow> byte list) \<Rightarrow> session \<Rightarrow> js_error + int" where
  "S_M sha256 st =
     (case hash sha256 [JBigInt N] of
        Inl e \<Rightarrow> Inl e
      | Inr hN \<Rightarrow>
          (case hash sha256 [JBigInt g] of
             Inl e \<Rightarrow> Inl e
           | Inr hg \<Rightarrow>
               (case hash sha256 [sess_I st] of
                  Inl e \<Rightarrow> Inl e
                | Inr hI \<Rightarrow>
                    hash sha256
                      [JBigInt (hN XOR hg), JBigInt hI, sess_s st,
                       JBigInt (sess_A st), JBigInt (sess_B st), JBigInt (sess_K st)])))"

definition phase7 :: "(string \<Rightarrow> byte list) \<Rightarrow> session \<Rightarrow> payload option \<Rightarrow> outcome" where
  "phase7 sha256 st dat =
     (case dat of
        None \<Rightarrow> throw st [] TypeError
      | Some d \<Rightarrow>
          (case S_M sha256 st of
             Inl e \<Rightarrow> throw st [] e
           | Inr sm \<Rightarrow>
               (case BigInt_0x (template_text (data_C_M d)) of
                  Inl e \<Rightarrow> throw st [] e
                | Inr cm \<Rightarrow>
                    returned st [CloseStatus 1000 (if sm = cm then statusOk else statusUnauthorized)])))"

text \<open>
  The \<^verbatim>\<open>default\<close> branch, lines 222 and 223, reads \<^verbatim>\<open>data.error\<close> for the console:
  TypeError when there is no \<^verbatim>\<open>data\<close>.
\<close>

definition unexpected :: "session \<Rightarrow> payload option \<Rightarrow> outcome" where
  "unexpected st dat =
     (case dat of
        None \<Rightarrow> throw st [] TypeError
      | Some d \<Rightarrow> returned st [])"

text \<open>The handler of \<^verbatim>\<open>message\<close>, lines 155 to 225.\<close>

definition on_message ::
  "(string \<Rightarrow> byte list) \<Rightarrow> int \<Rightarrow> world \<Rightarrow> session \<Rightarrow> message \<Rightarrow> outcome" where
  "on_message sha256 kv w st m =
     (if serial m = Some 2 then phase2 kv w st (data m)
      else if serial m = Some 3 then phase3 sha256 st
      else if serial m = Some 5 then phase5 sha256 st
      else if serial m = Some 7 then phase7 sha256 st (data m)
      else unexpected st (data m))"

text \<open>
  The messages of one connection, handled one after the other on the same variables;
  each comes with the world at its time. The result is the session at the end and all
  effects in order. The variables and the registered handler outlive an exception of
  one call, so the next message is handled on the state that call left.
\<close>

fun run ::
  "(string \<Rightarrow> byte list) \<Rightarrow> int \<Rightarrow> session \<Rightarrow> (world \<times> message) list \<Rightarrow> session \<times> effect list" where
  "run sha256 kv st [] = (st, [])"
| "run sha256 kv st ((w, m) # evs) =
     (let r = on_message sha256 kv w st m;
          (st', es) = run sha256 kv (state r) evs
      in (st', effects r @ es))"

text \<open>
  The variables that \<^verbatim>\<open>case 2\<close> and its callback assign; \<^verbatim>\<open>_u\<close> belongs to
  \<^verbatim>\<open>case 3\<close> and \<^verbatim>\<open>_K\<close> to \<^verbatim>\<open>case 5\<close>.
\<close>

definition phase2_fields :: "session \<Rightarrow> jsval \<times> int \<times> int \<times> int \<times> jsval \<times> int" where
  "phase2_fields st = (sess_I st, sess_A st, sess_B st, sess_b st, sess_s st, sess_v st)"

section \<open>Sample inputs\<close>

text \<open>
  A stand-in for the digest function, with 32 bytes of output like SHA-256: the last
  byte is the length of the text. A user store with two users, one that answers with an
  error for the identity \<^verbatim>\<open>err\<close>, and has no row for any other identity; its random
  bytes are zeros and a final 3.
\<close>

definition length_digest :: "string \<Rightarrow> byte list" where
  "length_digest t = replicate 31 0 @ [of_nat (length t)]"

definition sample_world :: world where
  "sample_world =
     \<lparr>db_all = (\<lambda>i. if i = JString ''alice'' then DbRows [(''0a'', ''1f'')]
                     else if i = JString ''bob'' then DbRows [(''0b'', ''2f'')]
                     else if i = JString ''err'' then DbError ''SQLITE_ERROR''
                     else DbRows []),
      getRandomValues = (\<lambda>n. replicate (n - 1) 0 @ [3])\<rparr>"

definition login :: "string \<Rightarrow> string \<Rightarrow> message" where
  "login i a =
     \<lparr>serial = Some 2,
      data = Some \<lparr>data_I = JString i, data_A = JString a, data_C_M = JUndefined\<rparr>\<rparr>"

definition proof_message :: "string \<Rightarrow> message" where
  "proof_message c =
     \<lparr>serial = Some 7,
      data = Some \<lparr>data_I = JUndefined, data_A = JUndefined, data_C_M = JString c\<rparr>\<rparr>"

section \<open>Properties of the BigInt arithmetic\<close>

subsection \<open>The remainder that truncates\<close>

lemma bigint_rem_nonneg: "0 \<le> a \<Longrightarrow> 0 < m \<Longrightarrow> bigint_rem a m = a mod m"
  by (cases "a = 0") (simp_all add: bigint_rem_def)

lemma abs_mod_abs_nonneg: "0 \<le> \<bar>a\<bar> mod \<bar>m\<bar>" for a m :: int
  by (cases "m = 0") simp_all

lemma abs_bigint_rem: "\<bar>bigint_rem a m\<bar> = \<bar>a\<bar> mod \<bar>m\<bar>"
proof (cases "a = 0")
  case True
  then show ?thesis by (simp add: bigint_rem_def)
next
  case False
  then have "\<bar>sgn a\<bar> = 1" by (simp add: abs_sgn_eq)
  then show ?thesis
    using abs_mod_abs_nonneg [of a m] by (simp add: bigint_rem_def abs_mult)
qed

lemma sgn_bigint_rem: "sgn (bigint_rem a m) = (if \<bar>a\<bar> mod \<bar>m\<bar> = 0 then 0 else sgn a)"
proof (cases "\<bar>a\<bar> mod \<bar>m\<bar> = 0")
  case True
  then show ?thesis by (simp add: bigint_rem_def)
next
  case False
  with abs_mod_abs_nonneg [of a m] have "0 < \<bar>a\<bar> mod \<bar>m\<bar>" by linarith
  then have "sgn (\<bar>a\<bar> mod \<bar>m\<bar>) = 1" by simp
  with False show ?thesis by (simp add: bigint_rem_def sgn_mult)
qed

lemma bigint_rem_mult_left: "bigint_rem (bigint_rem x m * y) m = bigint_rem (x * y) m"
proof (cases "\<bar>x\<bar> mod \<bar>m\<bar> = 0")
  case True
  then have z: "bigint_rem x m = 0"
    by (simp add: bigint_rem_def)
  have "(\<bar>x\<bar> * \<bar>y\<bar>) mod \<bar>m\<bar> = ((\<bar>x\<bar> mod \<bar>m\<bar>) * \<bar>y\<bar>) mod \<bar>m\<bar>"
    by (simp add: mod_mult_left_eq)
  with True have "(\<bar>x\<bar> * \<bar>y\<bar>) mod \<bar>m\<bar> = 0"
    by simp
  then have "bigint_rem (x * y) m = 0"
    by (simp add: bigint_rem_def abs_mult)
  moreover have "bigint_rem (0 * y) m = 0"
    by (simp add: bigint_rem_def)
  ultimately show ?thesis
    by (simp only: z)
next
  case False
  have "bigint_rem (bigint_rem x m * y) m
        = sgn (bigint_rem x m) * sgn y * ((\<bar>bigint_rem x m\<bar> * \<bar>y\<bar>) mod \<bar>m\<bar>)"
    by (simp add: bigint_rem_def [of "bigint_rem x m * y"] sgn_mult abs_mult)
  also have "\<dots> = sgn x * sgn y * (((\<bar>x\<bar> mod \<bar>m\<bar>) * \<bar>y\<bar>) mod \<bar>m\<bar>)"
    using False by (simp add: sgn_bigint_rem abs_bigint_rem)
  also have "\<dots> = sgn x * sgn y * ((\<bar>x\<bar> * \<bar>y\<bar>) mod \<bar>m\<bar>)"
    by (simp add: mod_mult_left_eq)
  also have "\<dots> = bigint_rem (x * y) m"
    by (simp add: bigint_rem_def sgn_mult abs_mult)
  finally show ?thesis .
qed

lemma bigint_rem_mult_right: "bigint_rem (x * bigint_rem y m) m = bigint_rem (x * y) m"
  using bigint_rem_mult_left [of y m x] by (simp add: mult.commute)

lemma bigint_rem_idem: "bigint_rem (bigint_rem x m) m = bigint_rem x m"
  using bigint_rem_mult_left [of x m 1] by simp

lemma bigint_rem_power: "bigint_rem (x * bigint_rem y m ^ n) m = bigint_rem (x * y ^ n) m"
proof (induction n arbitrary: x)
  case 0
  show ?case by simp
next
  case (Suc n)
  have "bigint_rem (x * bigint_rem y m ^ Suc n) m = bigint_rem ((x * bigint_rem y m) * bigint_rem y m ^ n) m"
    by (simp add: mult.assoc)
  also have "\<dots> = bigint_rem ((x * bigint_rem y m) * y ^ n) m"
    by (rule Suc.IH)
  also have "\<dots> = bigint_rem (y ^ n * x * bigint_rem y m) m"
    by (simp add: mult.commute mult.left_commute)
  also have "\<dots> = bigint_rem (y ^ n * x * y) m"
    by (rule bigint_rem_mult_right)
  also have "\<dots> = bigint_rem (x * y ^ Suc n) m"
    by (simp add: mult.commute mult.left_commute)
  finally show ?case .
qed

lemma bigint_rem_2_odd: "0 < p \<Longrightarrow> (bigint_rem p 2 = 1) = odd p"
  by (auto simp add: bigint_rem_def odd_iff_mod_2_eq_one)

lemma exp_loop_nonpos: "power' \<le> 0 \<Longrightarrow> exp_loop result num power' modulus = result"
  by (subst exp_loop.simps) simp

lemma exp_loop_eq:
  "0 \<le> power' \<Longrightarrow> bigint_rem result modulus = result \<Longrightarrow>
   exp_loop result num power' modulus = bigint_rem (result * num ^ nat power') modulus"
proof (induction result num power' modulus rule: exp_loop.induct)
  case (1 result num power' modulus)
  show ?case
  proof (cases "0 < power'")
    case False
    with "1.prems" show ?thesis by (simp add: exp_loop_nonpos bigint_rem_idem)
  next
    case True
    let ?r = "if bigint_rem power' 2 = 1 then bigint_rem (result * num) modulus else result"
    let ?n = "bigint_rem (num * num) modulus"
    have half: "0 \<le> drop_bit 1 power'"
      using True by simp
    have red: "bigint_rem ?r modulus = ?r"
      using "1.prems"(2) by (simp add: bigint_rem_idem)
    have "exp_loop result num power' modulus = exp_loop ?r ?n (drop_bit 1 power') modulus"
      using True by (subst exp_loop.simps) simp
    also have "\<dots> = bigint_rem (?r * ?n ^ nat (drop_bit 1 power')) modulus"
      using "1.IH" [OF True half red] .
    also have "\<dots> = bigint_rem (?r * (num * num) ^ nat (drop_bit 1 power')) modulus"
      by (rule bigint_rem_power)
    also have "\<dots> = bigint_rem (result * num ^ nat power') modulus"
    proof (cases "odd power'")
      case True
      then obtain q where q: "power' = 2 * q + 1" by (elim oddE)
      with \<open>0 < power'\<close> have q0: "0 \<le> q" by simp
      have h: "nat (drop_bit 1 power') = nat q"
        using q by (simp add: drop_bit_eq_div)
      have e: "nat power' = Suc (2 * nat q)"
        using q q0 by (simp add: nat_add_distrib nat_mult_distrib)
      have "bigint_rem power' 2 = 1"
        using True \<open>0 < power'\<close> by (simp add: bigint_rem_2_odd)
      then have r: "?r = bigint_rem (result * num) modulus"
        by simp
      have "bigint_rem (?r * (num * num) ^ nat (drop_bit 1 power')) modulus
            = bigint_rem (bigint_rem (result * num) modulus * (num * num) ^ nat q) modulus"
        by (simp only: r h)
      also have "\<dots> = bigint_rem (result * num * (num * num) ^ nat q) modulus"
        by (rule bigint_rem_mult_left)
      also have "result * num * (num * num) ^ nat q = result * num ^ nat power'"
        by (simp add: e power_mult power2_eq_square)
      finally show ?thesis .
    next
      case False
      then have "even power'" by simp
      then obtain q where q: "power' = 2 * q" by (elim evenE)
      with \<open>0 < power'\<close> have q0: "0 \<le> q" by simp
      have h: "nat (drop_bit 1 power') = nat q"
        using q by (simp add: drop_bit_eq_div)
      have e: "nat power' = 2 * nat q"
        using q q0 by (simp add: nat_mult_distrib)
      have "bigint_rem power' 2 \<noteq> 1"
        using False \<open>0 < power'\<close> by (simp add: bigint_rem_2_odd)
      then have r: "?r = result"
        by simp
      have "bigint_rem (?r * (num * num) ^ nat (drop_bit 1 power')) modulus
            = bigint_rem (result * (num * num) ^ nat q) modulus"
        by (simp only: r h)
      also have "result * (num * num) ^ nat q = result * num ^ nat power'"
        by (simp add: e power_mult power2_eq_square)
      finally show ?thesis .
    qed
    finally show ?thesis .
  qed
qed

lemma bigint_rem_one: "1 < \<bar>m\<bar> \<Longrightarrow> bigint_rem 1 m = 1"
  by (simp add: bigint_rem_def)

lemma bigIntExponentiation_rem:
  "0 \<le> power' \<Longrightarrow> 1 < modulus \<Longrightarrow>
   bigIntExponentiation num power' modulus = Inr (bigint_rem (num ^ nat power') modulus)"
proof -
  assume p: "0 \<le> power'" and m: "1 < modulus"
  have "exp_loop 1 (bigint_rem num modulus) power' modulus
        = bigint_rem (1 * bigint_rem num modulus ^ nat power') modulus"
    using p m by (intro exp_loop_eq) (simp_all add: bigint_rem_one)
  also have "\<dots> = bigint_rem (1 * num ^ nat power') modulus"
    by (rule bigint_rem_power)
  finally show ?thesis
    using m by (simp add: bigIntExponentiation_def)
qed

lemma bigint_rem_eq_0_iff: "bigint_rem a m = 0 \<longleftrightarrow> m dvd a"
proof -
  have "bigint_rem a m = 0 \<longleftrightarrow> \<bar>a\<bar> mod \<bar>m\<bar> = 0"
    by (cases "a = 0") (simp_all add: bigint_rem_def sgn_eq_0_iff)
  also have "\<dots> \<longleftrightarrow> \<bar>m\<bar> dvd \<bar>a\<bar>"
    by (simp add: dvd_eq_mod_eq_0)
  also have "\<dots> \<longleftrightarrow> m dvd a"
    by simp
  finally show ?thesis .
qed

lemma bigint_rem_cong: "bigint_rem a m mod m = a mod m"
proof -
  have "\<bar>a\<bar> mod \<bar>m\<bar> = \<bar>a\<bar> - \<bar>m\<bar> * (\<bar>a\<bar> div \<bar>m\<bar>)"
    by (simp add: minus_mult_div_eq_mod)
  then have "bigint_rem a m = sgn a * \<bar>a\<bar> - sgn a * (\<bar>m\<bar> * (\<bar>a\<bar> div \<bar>m\<bar>))"
    by (simp add: bigint_rem_def right_diff_distrib)
  also have "sgn a * \<bar>a\<bar> = a"
    by (simp add: sgn_mult_abs)
  finally have "a - bigint_rem a m = sgn a * (\<bar>m\<bar> * (\<bar>a\<bar> div \<bar>m\<bar>))"
    by simp
  moreover have "m dvd \<bar>m\<bar>"
    by simp
  ultimately have "m dvd a - bigint_rem a m"
    by simp
  then have "m dvd bigint_rem a m - a"
    by (simp add: dvd_diff_commute)
  then show ?thesis
    by (simp add: mod_eq_dvd_iff)
qed

lemma exp_loop_zero_base:
  "0 < power' \<Longrightarrow> exp_loop result 0 power' modulus = 0"
proof (induction result "0::int" power' modulus rule: exp_loop.induct)
  case (1 result power' modulus)
  have z: "bigint_rem 0 modulus = 0"
    by (simp add: bigint_rem_def)
  show ?case
  proof (cases "bigint_rem power' 2 = 1")
    case True
    have "exp_loop result 0 power' modulus = exp_loop 0 0 (drop_bit 1 power') modulus"
      using True "1.prems" by (subst exp_loop.simps) (simp add: z)
    also have "\<dots> = bigint_rem (0 * 0 ^ nat (drop_bit 1 power')) modulus"
      using "1.prems" by (intro exp_loop_eq) (simp_all add: z)
    finally show ?thesis
      by (simp add: z)
  next
    case False
    with "1.prems" have "even power'"
      by (simp add: bigint_rem_2_odd)
    with "1.prems" have half: "0 < drop_bit 1 power'"
      by (auto simp add: drop_bit_eq_div elim!: evenE)
    have "exp_loop result 0 power' modulus = exp_loop result 0 (drop_bit 1 power') modulus"
      using False "1.prems" by (subst exp_loop.simps) (simp add: z)
    also have "\<dots> = 0"
      using "1.hyps" [OF "1.prems" _ half] False by (simp add: z)
    finally show ?thesis .
  qed
qed

text \<open>
  With modulus 1 every positive exponent gives 0, and with exponent 0 every modulus
  other than 0 gives 1: the loop does not run and \<^verbatim>\<open>result\<close> is still the
  \<^verbatim>\<open>1n\<close> it started with.
\<close>

lemma bigIntExponentiation_modulus_one:
  "0 < e \<Longrightarrow> bigIntExponentiation a e 1 = Inr 0"
  by (simp add: bigIntExponentiation_def exp_loop_zero_base bigint_rem_def)

lemma bigIntExponentiation_exponent_zero:
  "bigIntExponentiation a 0 m = (if m = 0 then Inl RangeError else Inr 1)"
  by (simp add: bigIntExponentiation_def exp_loop_nonpos)

section \<open>Properties of the hash function\<close>

lemma less_16_cases:
  "d < 16 \<Longrightarrow> d = 0 \<or> d = 1 \<or> d = 2 \<or> d = 3 \<or> d = 4 \<or> d = 5 \<or> d = 6 \<or> d = 7 \<or> d = 8
     \<or> d = 9 \<or> d = 10 \<or> d = 11 \<or> d = 12 \<or> d = 13 \<or> d = 14 \<or> d = (15::nat)"
  by arith

lemma hex_digit_value_digit_char: "d < 16 \<Longrightarrow> hex_digit_value (digit_char d) = Some d"
  by (drule less_16_cases) (auto simp add: hex_digit_value_def digit_char_def)

lemma hex_prefix_hex_of_byte:
  "hex_prefix acc (hex_of_byte b @ cs) = hex_prefix (256 * acc + unat b) cs"
proof -
  have hi: "unat b div 16 < 16"
    using unsigned_less [of b, where ?'a = nat] by (simp add: less_mult_imp_div_less)
  have "16 * (16 * acc + unat b div 16) + unat b mod 16 = 256 * acc + unat b"
    by simp
  with hi show ?thesis
    by (simp add: hex_of_byte_def hex_digit_value_digit_char add.commute)
qed

lemma hex_prefix_digest_hex:
  "hex_prefix acc (digest_hex bs) = (foldl (\<lambda>acc b. 256 * acc + unat b) acc bs, [])"
proof (induction bs arbitrary: acc)
  case Nil
  show ?case by (simp add: digest_hex_def)
next
  case (Cons b bs)
  have "digest_hex (b # bs) = hex_of_byte b @ digest_hex bs"
    by (simp add: digest_hex_def)
  then show ?case
    by (simp add: hex_prefix_hex_of_byte Cons.IH)
qed

lemma BigInt_0x_digest_hex:
  assumes "bs \<noteq> []"
  shows "BigInt_0x (digest_hex bs) = Inr (int (be_uint bs))"
proof -
  from assms obtain b bs' where bs: "bs = b # bs'"
    by (cases bs) auto
  have hi: "unat b div 16 < 16"
    using unsigned_less [of b, where ?'a = nat] by (simp add: less_mult_imp_div_less)
  have split: "digest_hex (b # bs') = digit_char (unat b div 16) # (digit_char (unat b mod 16) # digest_hex bs')"
    by (simp add: digest_hex_def hex_of_byte_def)
  have "hex_prefix (unat b div 16) (digit_char (unat b mod 16) # digest_hex bs')
        = (foldl (\<lambda>acc b. 256 * acc + unat b) (unat b) bs', [])"
    by (simp add: hex_digit_value_digit_char hex_prefix_digest_hex)
  then have "BigInt_0x (digit_char (unat b div 16) # (digit_char (unat b mod 16) # digest_hex bs'))
        = Inr (int (foldl (\<lambda>acc b. 256 * acc + unat b) (unat b) bs'))"
    using hi by (simp add: BigInt_0x_def hex_digit_value_digit_char)
  then show ?thesis
    by (simp add: split be_uint_def bs)
qed

lemma hash_be_uint:
  "sha256 (join '':'' args) \<noteq> [] \<Longrightarrow>
   hash sha256 args = Inr (int (be_uint (sha256 (join '':'' args))))"
  by (simp add: hash_def BigInt_0x_digest_hex)

lemma hash_total:
  "\<forall>t. sha256 t \<noteq> [] \<Longrightarrow> \<exists>h. hash sha256 args = Inr h"
  by (simp add: hash_be_uint)

lemma of_char_digit_char: "d < 10 \<Longrightarrow> (of_char (digit_char d) :: nat) = 48 + d"
proof -
  assume "d < 10"
  then have "d = 0 \<or> d = 1 \<or> d = 2 \<or> d = 3 \<or> d = 4 \<or> d = 5 \<or> d = 6 \<or> d = 7 \<or> d = 8 \<or> d = 9"
    by arith
  then show ?thesis
    by (auto simp add: digit_char_def)
qed

lemma dec_value_snoc: "dec_value (t @ [c]) = 10 * dec_value t + (of_char c - 48)"
  by (simp add: dec_value_def)

lemma dec_value_dec_digits: "dec_value (dec_digits n) = n"
proof (induction n rule: dec_digits.induct)
  case (1 n)
  show ?case
  proof (cases "n < 10")
    case True
    then show ?thesis
      by (subst dec_digits.simps) (simp add: dec_value_def of_char_digit_char)
  next
    case False
    then have "dec_value (dec_digits n) = 10 * dec_value (dec_digits (n div 10)) + (of_char (digit_char (n mod 10)) - 48)"
      by (subst dec_digits.simps) (simp add: dec_value_snoc)
    also have "\<dots> = 10 * (n div 10) + n mod 10"
      using False by (simp add: "1.IH" of_char_digit_char)
    finally show ?thesis
      by simp
  qed
qed

lemma be_uint_length_digest: "be_uint (length_digest t) = unat (of_nat (length t) :: byte)"
proof -
  have "foldl (\<lambda>acc b. 256 * acc + unat b) 0 (replicate n (0::byte)) = 0" for n
    by (induction n) simp_all
  then show ?thesis
    by (simp add: be_uint_def length_digest_def)
qed

section \<open>Properties used for the session\<close>

lemma N_nonzero: "N \<noteq> 0"
  by (simp add: N_def)

lemma bigIntExponentiation_N:
  "\<exists>r. bigIntExponentiation a e N = Inr r"
  by (simp add: bigIntExponentiation_def N_nonzero)

lemma flip_bit_neq: "flip_bit i x \<noteq> x" for x :: int
proof
  assume "flip_bit i x = x"
  then have "bit (flip_bit i x) i = bit x i"
    by simp
  then show False
    by (simp add: bit_flip_bit_iff)
qed

lemma length_digest_nonempty: "\<forall>t. length_digest t \<noteq> []"
  by (simp add: length_digest_def)

lemma hash_length_digest:
  "hash length_digest args = Inr (int (unat (of_nat (length (join '':'' args)) :: byte)))"
  by (simp add: hash_be_uint length_digest_nonempty be_uint_length_digest)

lemma length_dec_digits:
  "10 ^ j \<le> n \<Longrightarrow> n < 10 ^ Suc j \<Longrightarrow> length (dec_digits n) = Suc j"
proof (induction j arbitrary: n)
  case 0
  then show ?case
    by (subst dec_digits.simps) simp
next
  case (Suc j)
  from Suc.prems(1) have "10 * 10 ^ j \<le> n"
    by simp
  then have lo: "10 ^ j \<le> n div 10"
    by (simp add: less_eq_div_iff_mult_less_eq mult.commute)
  from Suc.prems(2) have hi: "n div 10 < 10 ^ Suc j"
    by (simp add: div_less_iff_less_mult mult.commute)
  have "(1::nat) \<le> 10 ^ j"
    by simp
  with \<open>10 * 10 ^ j \<le> n\<close> have "\<not> n < 10"
    by linarith
  then have "dec_digits n = dec_digits (n div 10) @ [digit_char (n mod 10)]"
    by (subst dec_digits.simps) simp
  with Suc.IH [OF lo hi] show ?case
    by simp
qed

lemma length_dec_digits_N: "length (bigint_toString N) = 309"
proof -
  have "length (dec_digits (nat N)) = Suc 308"
    by (rule length_dec_digits) (simp_all add: N_def)
  then show ?thesis
    by (simp add: bigint_toString_def N_def)
qed

lemma BigInt_0x_N:
  "BigInt_0x ''aad9eae2b53d86fb885199eacf14cd65f986251ee9f942e597146c49dc4c38e84c4424dff90fc28ecd66113795dffe53a6c5501f618bfde89c174d846b086d29763979fc91eac2afadb511abde3d7bd67f318cdc292e9a396a6ccf5f6c240c1021928b855b67f0ae62932deb75a6bcf70c718ccd960d5358e37b7671a98b2a93'' = Inr N"
  by (simp add: BigInt_0x_def hex_digit_value_def N_def)

subsection \<open>The two ways out of a login without a user row\<close>

lemma phase2_no_rows:
  assumes m: "serial m = Some 2" "data m = Some d"
    and a: "BigInt_0x (template_text (data_A d)) = Inr a" "a mod N \<noteq> 0"
    and rows: "db_all w (data_I d) = DbRows []"
  shows "on_message sha256 kv w st m
           = \<lparr>state = st\<lparr>sess_I := data_I d, sess_A := a\<rparr>,
              effects = [DbAll (data_I d)], thrown = Some TypeError\<rparr>"
proof -
  from a(2) have "bigint_rem a N \<noteq> 0"
    by (simp add: bigint_rem_eq_0_iff dvd_eq_mod_eq_0)
  with m a(1) rows show ?thesis
    by (simp add: on_message_def phase2_def db_callback_def throw_def)
qed

lemma phase2_store_error:
  assumes m: "serial m = Some 2" "data m = Some d"
    and a: "BigInt_0x (template_text (data_A d)) = Inr a" "a mod N \<noteq> 0"
    and rows: "db_all w (data_I d) = DbError error"
  shows "on_message sha256 kv w st m
           = \<lparr>state = st\<lparr>sess_I := data_I d, sess_A := a\<rparr>,
              effects = [DbAll (data_I d), Send (SerialError 0x99 error), Close],
              thrown = None\<rparr>"
proof -
  from a(2) have "bigint_rem a N \<noteq> 0"
    by (simp add: bigint_rem_eq_0_iff dvd_eq_mod_eq_0)
  with m a(1) rows show ?thesis
    by (simp add: on_message_def phase2_def db_callback_def returned_def)
qed

subsection \<open>The default branch with data\<close>

lemma unexpected_with_data:
  assumes "serial m \<notin> {Some 2, Some 3, Some 5, Some 7}" and "data m = Some d"
  shows "on_message sha256 kv w st m = \<lparr>state = st, effects = [], thrown = None\<rparr>"
  using assms by (simp add: on_message_def unexpected_def returned_def)

subsection \<open>Two logins on the sample store\<close>

lemma hex_prefix_zero_bytes:
  "hex_prefix 0 (concat (map (\<lambda>byte. padStart2 (hex_digits (unat byte))) (replicate n (0::byte))) @ rest)
     = hex_prefix 0 rest"
proof (induction n)
  case 0
  show ?case by simp
next
  case (Suc n)
  have "padStart2 (hex_digits (unat (0::byte))) = ''00''"
    by (simp add: padStart2_def hex_digits.simps digit_char_def)
  with Suc.IH show ?case
    by (simp add: hex_digit_value_def)
qed

lemma generateSalt_sample_world: "generateSalt (getRandomValues sample_world 32) = Inr 3"
proof -
  let ?f = "\<lambda>byte::byte. padStart2 (hex_digits (unat byte))"
  have e: "(31::nat) = Suc 30"
    by simp
  have "replicate 31 (0::byte) = 0 # replicate 30 0"
    by (simp only: e replicate_Suc)
  then have bytes: "getRandomValues sample_world 32 = 0 # (replicate 30 0 @ [3])"
    by (simp add: sample_world_def)
  have z: "padStart2 (hex_digits 0) = ''00''" and t: "padStart2 (hex_digits 3) = ''03''"
    by (simp_all add: padStart2_def hex_digits.simps digit_char_def)
  have "concat (map ?f (0 # (replicate 30 0 @ [3])))
        = CHR ''0'' # CHR ''0'' # (concat (map ?f (replicate 30 0)) @ ''03'')"
    by (simp add: z t)
  moreover have "hex_prefix 0 (CHR ''0'' # (concat (map ?f (replicate 30 0)) @ ''03'')) = (3, [])"
    using hex_prefix_zero_bytes [of 30 "''03''"] by (simp add: hex_digit_value_def)
  ultimately show ?thesis
    by (simp add: generateSalt_def bytes BigInt_0x_def hex_digit_value_def)
qed

lemma g_cubed: "bigIntExponentiation g 3 N = Inr 8"
  using bigIntExponentiation_rem [of 3 N g] by (simp add: N_def g_def bigint_rem_def)

lemma login_alice:
  "on_message sha256 7 sample_world st (login ''alice'' ''5'')
     = \<lparr>state = st\<lparr>sess_I := JString ''alice'', sess_A := 5, sess_s := JBigInt 10,
                        sess_v := 31, sess_b := 3, sess_B := 225\<rparr>,
        effects = [DbAll (JString ''alice''), Send (SerialSB 3 ''0a'' ''e1'')],
        thrown = None\<rparr>"
proof -
  have p: "BigInt_0x ''5'' = Inr 5" "BigInt_0x ''0a'' = Inr 10" "BigInt_0x ''1f'' = Inr 31"
    by (simp_all add: BigInt_0x_def hex_digit_value_def)
  have r: "bigint_rem 5 N = 5" "bigint_rem 3 N = 3" "bigint_rem 225 N = 225"
    by (simp_all add: bigint_rem_def N_def)
  have h: "bigint_toString16 225 = ''e1''"
    by (simp add: bigint_toString16_def hex_digits.simps digit_char_def)
  have db: "db_all sample_world (JString ''alice'') = DbRows [(''0a'', ''1f'')]"
    by (simp add: sample_world_def)
  show ?thesis
    by (simp add: on_message_def phase2_def db_callback_def login_def p r h db
        generateSalt_sample_world g_cubed returned_def)
qed

lemma login_bob:
  "on_message sha256 7 sample_world st (login ''bob'' ''6'')
     = \<lparr>state = st\<lparr>sess_I := JString ''bob'', sess_A := 6, sess_s := JBigInt 11,
                        sess_v := 47, sess_b := 3, sess_B := 337\<rparr>,
        effects = [DbAll (JString ''bob''), Send (SerialSB 3 ''0b'' ''151'')],
        thrown = None\<rparr>"
proof -
  have p: "BigInt_0x ''6'' = Inr 6" "BigInt_0x ''0b'' = Inr 11" "BigInt_0x ''2f'' = Inr 47"
    by (simp_all add: BigInt_0x_def hex_digit_value_def)
  have r: "bigint_rem 6 N = 6" "bigint_rem 3 N = 3" "bigint_rem 337 N = 337"
    by (simp_all add: bigint_rem_def N_def)
  have h: "bigint_toString16 337 = ''151''"
    by (simp add: bigint_toString16_def hex_digits.simps digit_char_def)
  have db: "db_all sample_world (JString ''bob'') = DbRows [(''0b'', ''2f'')]"
    by (simp add: sample_world_def)
  show ?thesis
    by (simp add: on_message_def phase2_def db_callback_def login_def p r h db
        generateSalt_sample_world g_cubed returned_def)
qed

subsection \<open>What each handler leaves alone\<close>

lemma db_callback_frame:
  "sess_u (state (db_callback kv w st res)) = sess_u st
   \<and> sess_K (state (db_callback kv w st res)) = sess_K st"
  by (simp add: db_callback_def returned_def throw_def Let_def
      split: db_result.split list.split prod.split sum.split)

lemma phase2_frame:
  "sess_u (state (phase2 kv w st dat)) = sess_u st
   \<and> sess_K (state (phase2 kv w st dat)) = sess_K st"
  by (simp add: phase2_def returned_def throw_def Let_def db_callback_frame
      split: option.split sum.split)

lemma phase3_frame:
  "phase2_fields (state (phase3 sha256 st)) = phase2_fields st
   \<and> sess_K (state (phase3 sha256 st)) = sess_K st"
  by (simp add: phase3_def phase2_fields_def returned_def throw_def split: sum.split)

lemma phase5_frame:
  "phase2_fields (state (phase5 sha256 st)) = phase2_fields st
   \<and> sess_u (state (phase5 sha256 st)) = sess_u st"
  by (simp add: phase5_def phase2_fields_def returned_def throw_def split: sum.split)

lemma phase7_frame: "state (phase7 sha256 st dat) = st"
  by (simp add: phase7_def returned_def throw_def split: option.split sum.split)

lemma unexpected_frame: "state (unexpected st dat) = st"
  by (simp add: unexpected_def returned_def throw_def split: option.split)

lemma on_message_frame:
  "(serial m \<noteq> Some 2 \<longrightarrow>
      phase2_fields (state (on_message sha256 kv w st m)) = phase2_fields st)
   \<and> (serial m \<noteq> Some 3 \<longrightarrow> sess_u (state (on_message sha256 kv w st m)) = sess_u st)
   \<and> (serial m \<noteq> Some 5 \<longrightarrow> sess_K (state (on_message sha256 kv w st m)) = sess_K st)"
  by (simp add: on_message_def phase2_frame phase3_frame phase5_frame phase7_frame
      unexpected_frame)

section \<open>Claims about \<^verbatim>\<open>bigIntExponentiation\<close>\<close>

text \<open>
  Claim C2, as stated: for every base, every non-negative exponent and every modulus
  greater than 1, the result is the mathematical \<open>base ^ exponent mod modulus\<close>. It
  fails for a negative base: \<^verbatim>\<open>bigIntExponentiation(-2n, 1n, 3n)\<close> is \<^verbatim>\<open>-2n\<close>, and
  \<open>(-2) ^ 1 mod 3\<close> is 1.
\<close>

theorem bigIntExponentiation_negative_base_counterexample:
  "bigIntExponentiation (- 2) 1 3 = Inr (- 2) \<and> (- 2 :: int) ^ nat 1 mod 3 = 1"
  by (simp add: bigIntExponentiation_def bigint_rem_def exp_loop.simps)

text \<open>
  Claim C2, amended: for every non-negative exponent and every modulus greater than 1,
  the result is the remainder of \<open>base ^ exponent\<close> that \<^verbatim>\<open>%\<close> gives (with the sign of
  the power); for a non-negative base that is \<open>base ^ exponent mod modulus\<close>, and for
  every base the result is congruent to the power modulo the modulus.
\<close>

theorem bigIntExponentiation_power_mod:
  assumes "0 \<le> power'" and "1 < modulus"
  shows "bigIntExponentiation num power' modulus = Inr (bigint_rem (num ^ nat power') modulus)
         \<and> (0 \<le> num \<longrightarrow>
              bigIntExponentiation num power' modulus = Inr (num ^ nat power' mod modulus))
         \<and> (\<exists>r. bigIntExponentiation num power' modulus = Inr r
                  \<and> r mod modulus = num ^ nat power' mod modulus)"
proof -
  have eq: "bigIntExponentiation num power' modulus = Inr (bigint_rem (num ^ nat power') modulus)"
    using assms by (rule bigIntExponentiation_rem)
  have "bigint_rem (num ^ nat power') modulus = num ^ nat power' mod modulus" if "0 \<le> num"
    using that assms(2) by (intro bigint_rem_nonneg) simp_all
  with eq show ?thesis
    by (simp add: bigint_rem_cong)
qed

theorem bigIntExponentiation_power_mod_witness:
  "(0::int) \<le> 5 \<and> (1::int) < 7 \<and> (0::int) \<le> 3
   \<and> bigIntExponentiation 3 5 7 = Inr (3 ^ nat 5 mod 7)
   \<and> (\<exists>r. bigIntExponentiation (- 3) 5 7 = Inr r \<and> r mod 7 = (- 3) ^ nat 5 mod 7)"
  using bigIntExponentiation_power_mod [of 5 7 3] bigIntExponentiation_power_mod [of 5 7 "- 3"]
  by (simp add: bigint_rem_def)

text \<open>
  Claim C8: \<^verbatim>\<open>bigIntExponentiation(a, e, 1)\<close> is 0 for every non-negative \<open>e\<close>. The code
  returns 1 at \<open>e = 0\<close>, for every base.
\<close>

theorem bigIntExponentiation_modulus_one_exponent_zero:
  "bigIntExponentiation a 0 1 = Inr 1"
  by (simp add: bigIntExponentiation_def exp_loop_nonpos)

text \<open>
  Claim C10: the call returns for every base, every exponent and every modulus other
  than 0. The recursion of \<open>exp_loop\<close> is the loop, and its termination proof is the
  measure \<open>nat power'\<close>; here: the call returns a value and raises nothing, the right
  shift of a positive exponent is smaller and not negative, and a negative exponent
  gives 1.
\<close>

theorem bigIntExponentiation_terminates:
  "modulus \<noteq> 0 \<Longrightarrow>
     (\<exists>r. bigIntExponentiation num power' modulus = Inr r)
     \<and> (0 < power' \<longrightarrow> 0 \<le> drop_bit 1 power' \<and> drop_bit 1 power' < power')
     \<and> (power' < 0 \<longrightarrow> bigIntExponentiation num power' modulus = Inr 1)"
proof -
  assume nz: "modulus \<noteq> 0"
  have "power' div 2 < power'" if "0 < power'"
    using that by linarith
  with nz show ?thesis
    by (simp add: bigIntExponentiation_def drop_bit_eq_div exp_loop_nonpos)
qed

theorem bigIntExponentiation_terminates_witness:
  "(7::int) \<noteq> 0 \<and> (0::int) < 6 \<and> (- 4 :: int) < 0
   \<and> (\<exists>r. bigIntExponentiation 2 6 7 = Inr r)
   \<and> drop_bit 1 (6::int) < 6
   \<and> bigIntExponentiation 2 (- 4) 7 = Inr 1"
  using bigIntExponentiation_terminates [of 7 2 6] bigIntExponentiation_terminates [of 7 2 "- 4"]
  by simp

section \<open>Claims about \<^verbatim>\<open>hash\<close>\<close>

text \<open>
  Claim C7, as stated: \<^verbatim>\<open>hash\<close> renders each integer part as a lowercase hexadecimal
  string. It fails: \<^verbatim>\<open>join\<close> converts a BigInt with \<^verbatim>\<open>toString()\<close>, which is
  decimal, so the text that is hashed for the part 255 is \<^verbatim>\<open>255\<close>, not \<^verbatim>\<open>ff\<close>.
\<close>

theorem hash_renders_decimal_counterexample:
  "join '':'' [JBigInt 255] = ''255'' \<and> spec_digest_text [JBigInt 255] = ''ff''
   \<and> join '':'' [JBigInt 255] \<noteq> spec_digest_text [JBigInt 255]"
  by (simp add: bigint_toString_def bigint_toString16_def dec_digits.simps hex_digits.simps
      digit_char_def)

text \<open>
  Claim C7, amended: \<^verbatim>\<open>hash\<close> returns the digest bytes of the joined text read as a
  big-endian unsigned integer, where strings are joined as they are, a non-negative
  integer part is its decimal numeral, a negative one the minus sign and the decimal
  numeral of its absolute value, and the separator is a colon.
\<close>

theorem hash_digest:
  assumes "sha256 (join '':'' parts) \<noteq> []" and "0 \<le> n"
  shows "hash sha256 parts = Inr (int (be_uint (sha256 (join '':'' parts))))
         \<and> join_text (JString t) = t
         \<and> int (dec_value (join_text (JBigInt n))) = n
         \<and> join_text (JBigInt (- (n + 1))) = CHR ''-'' # join_text (JBigInt (n + 1))
         \<and> join '':'' (JString t # JBigInt n # parts)
             = t @ '':'' @ join_text (JBigInt n) @ (if parts = [] then [] else '':'' @ join '':'' parts)"
proof -
  have "join '':'' (JBigInt n # parts)
        = join_text (JBigInt n) @ (if parts = [] then [] else '':'' @ join '':'' parts)"
    by (cases parts) simp_all
  with assms show ?thesis
    by (simp add: hash_be_uint bigint_toString_def dec_value_dec_digits add.commute)
qed

theorem hash_digest_witness:
  "length_digest (join '':'' [JBigInt 255, JString ''ab'']) \<noteq> [] \<and> (0::int) \<le> 255
   \<and> hash length_digest [JBigInt 255, JString ''ab'']
       = Inr (int (be_uint (length_digest (join '':'' [JBigInt 255, JString ''ab'']))))
   \<and> hash length_digest [JBigInt 255, JString ''ab''] = Inr 6
   \<and> int (dec_value (join_text (JBigInt 255))) = 255"
proof -
  have ne: "length_digest (join '':'' [JBigInt 255, JString ''ab'']) \<noteq> []"
    by (simp add: length_digest_def)
  have joined: "join '':'' [JBigInt 255, JString ''ab''] = ''255:ab''"
    by (simp add: bigint_toString_def dec_digits.simps digit_char_def)
  have "be_uint (length_digest ''255:ab'') = 6"
    by (simp add: be_uint_length_digest)
  with hash_digest [of length_digest "[JBigInt 255, JString ''ab'']" 255] joined ne show ?thesis
    by simp
qed

section \<open>Claims about the session\<close>

text \<open>
  Claim C1: on a message of phase 7 that carries a \<^verbatim>\<open>C_M\<close> which parses as a
  hexadecimal integer, the session computes the expected proof as the hash of
  \<open>hash N XOR hash g\<close>, the hash of the identity, the salt, both public values and the
  hash of the session key, and closes the connection with code 1000 and the status 200
  when the client's proof is equal to it, 401 otherwise; the session variables do not
  change. A client proof that differs from the expected one in one bit gives 401. The
  digest function is any function whose digests are not empty.
\<close>

theorem phase7_proof_check:
  assumes sha: "\<forall>t. sha256 t \<noteq> []"
    and m: "serial m = Some 7" "data m = Some d"
    and c: "data_C_M d = JString c" "BigInt_0x c = Inr clientProof"
  shows "\<exists>hN hg hI expectedProof.
           hash sha256 [JBigInt N] = Inr hN
         \<and> hash sha256 [JBigInt g] = Inr hg
         \<and> hash sha256 [sess_I st] = Inr hI
         \<and> hash sha256 [JBigInt (hN XOR hg), JBigInt hI, sess_s st, JBigInt (sess_A st),
                          JBigInt (sess_B st), JBigInt (sess_K st)] = Inr expectedProof
         \<and> on_message sha256 kv w st m
             = \<lparr>state = st,
                effects = [CloseStatus 1000
                  (if clientProof = expectedProof then statusOk else statusUnauthorized)],
                thrown = None\<rparr>
         \<and> (\<forall>i. clientProof = flip_bit i expectedProof \<longrightarrow>
                on_message sha256 kv w st m
                  = \<lparr>state = st, effects = [CloseStatus 1000 statusUnauthorized],
                     thrown = None\<rparr>)"
proof -
  obtain hN where hN: "hash sha256 [JBigInt N] = Inr hN"
    using hash_total [OF sha] by blast
  obtain hg where hg: "hash sha256 [JBigInt g] = Inr hg"
    using hash_total [OF sha] by blast
  obtain hI where hI: "hash sha256 [sess_I st] = Inr hI"
    using hash_total [OF sha] by blast
  obtain e where e: "hash sha256 [JBigInt (hN XOR hg), JBigInt hI, sess_s st, JBigInt (sess_A st),
                          JBigInt (sess_B st), JBigInt (sess_K st)] = Inr e"
    using hash_total [OF sha] by blast
  have sm: "S_M sha256 st = Inr e"
    by (simp add: S_M_def hN hg hI e)
  have out: "on_message sha256 kv w st m
             = \<lparr>state = st,
                effects = [CloseStatus 1000 (if clientProof = e then statusOk else statusUnauthorized)],
                thrown = None\<rparr>"
    using m c by (auto simp add: on_message_def phase7_def sm returned_def)
  have "on_message sha256 kv w st m
          = \<lparr>state = st, effects = [CloseStatus 1000 statusUnauthorized], thrown = None\<rparr>"
    if "clientProof = flip_bit i e" for i
    using that out flip_bit_neq [of i e] by simp
  with hN hg hI e out show ?thesis
    by blast
qed

theorem phase7_proof_check_witness:
  "(\<forall>t. length_digest t \<noteq> [])
   \<and> serial (proof_message ''b'') = Some 7
   \<and> BigInt_0x ''b'' = Inr 11 \<and> BigInt_0x ''a'' = Inr (flip_bit 0 11)
   \<and> hash length_digest [JBigInt 52, JBigInt 0, sess_s initial_session, JBigInt 0, JBigInt 0, JBigInt 0] = Inr 11
   \<and> on_message length_digest 7 sample_world initial_session (proof_message ''b'')
       = \<lparr>state = initial_session, effects = [CloseStatus 1000 statusOk], thrown = None\<rparr>
   \<and> on_message length_digest 7 sample_world initial_session (proof_message ''a'')
       = \<lparr>state = initial_session, effects = [CloseStatus 1000 statusUnauthorized], thrown = None\<rparr>"
proof -
  let ?d = "\<lparr>data_I = JUndefined, data_A = JUndefined, data_C_M = JString ''b''\<rparr>"
  let ?d' = "\<lparr>data_I = JUndefined, data_A = JUndefined, data_C_M = JString ''a''\<rparr>"
  have b: "BigInt_0x ''b'' = Inr 11" and a: "BigInt_0x ''a'' = Inr 10"
    by (simp_all add: BigInt_0x_def hex_digit_value_def)
  have f: "flip_bit 0 (11::int) = 10"
    by (simp add: flip_bit_eq_xor)
  have hN: "hash length_digest [JBigInt N] = Inr 53"
    by (simp add: hash_length_digest length_dec_digits_N)
  have hg: "hash length_digest [JBigInt g] = Inr 1"
    by (simp add: hash_length_digest g_def bigint_toString_def dec_digits.simps)
  have hI: "hash length_digest [sess_I initial_session] = Inr 0"
    by (simp add: hash_length_digest initial_session_def)
  have x: "(53::int) XOR 1 = 52"
    by simp
  have e: "hash length_digest [JBigInt 52, JBigInt 0, sess_s initial_session, JBigInt 0, JBigInt 0, JBigInt 0] = Inr 11"
    by (simp add: hash_length_digest initial_session_def bigint_toString_def dec_digits.simps)
  have st: "sess_A initial_session = 0" "sess_B initial_session = 0" "sess_K initial_session = 0"
    by (simp_all add: initial_session_def)
  from phase7_proof_check [of length_digest "proof_message ''b''" ?d "''b''" 11 initial_session 7 sample_world]
  have ok: "on_message length_digest 7 sample_world initial_session (proof_message ''b'')
       = \<lparr>state = initial_session, effects = [CloseStatus 1000 statusOk], thrown = None\<rparr>"
    using length_digest_nonempty b hN hg hI e x st by (auto simp add: proof_message_def)
  from phase7_proof_check [of length_digest "proof_message ''a''" ?d' "''a''" 10 initial_session 7 sample_world]
  have no: "on_message length_digest 7 sample_world initial_session (proof_message ''a'')
       = \<lparr>state = initial_session, effects = [CloseStatus 1000 statusUnauthorized], thrown = None\<rparr>"
    using length_digest_nonempty a hN hg hI e x st by (auto simp add: proof_message_def)
  from ok no b a f e length_digest_nonempty show ?thesis
    by (simp add: proof_message_def)
qed

text \<open>
  Claim C3: on a message of phase 2 whose \<^verbatim>\<open>A\<close> is congruent to 0 modulo \<open>N\<close>, the
  handler closes the connection and returns: no message is sent and the user store is
  not queried. The two variables assigned before the test keep their new values.
\<close>

theorem phase2_zero_key:
  assumes m: "serial m = Some 2" "data m = Some d"
    and a: "BigInt_0x (template_text (data_A d)) = Inr clientPublic"
    and z: "clientPublic mod N = 0"
  shows "on_message sha256 kv w st m
           = \<lparr>state = st\<lparr>sess_I := data_I d, sess_A := clientPublic\<rparr>,
              effects = [Close], thrown = None\<rparr>"
proof -
  from z have "bigint_rem clientPublic N = 0"
    by (simp add: bigint_rem_eq_0_iff dvd_eq_mod_eq_0)
  with m a show ?thesis
    by (simp add: on_message_def phase2_def returned_def)
qed

theorem phase2_zero_key_witness:
  "serial (login ''alice'' ''aad9eae2b53d86fb885199eacf14cd65f986251ee9f942e597146c49dc4c38e84c4424dff90fc28ecd66113795dffe53a6c5501f618bfde89c174d846b086d29763979fc91eac2afadb511abde3d7bd67f318cdc292e9a396a6ccf5f6c240c1021928b855b67f0ae62932deb75a6bcf70c718ccd960d5358e37b7671a98b2a93'') = Some 2
   \<and> N mod N = 0
   \<and> on_message length_digest 7 sample_world initial_session
        (login ''alice'' ''aad9eae2b53d86fb885199eacf14cd65f986251ee9f942e597146c49dc4c38e84c4424dff90fc28ecd66113795dffe53a6c5501f618bfde89c174d846b086d29763979fc91eac2afadb511abde3d7bd67f318cdc292e9a396a6ccf5f6c240c1021928b855b67f0ae62932deb75a6bcf70c718ccd960d5358e37b7671a98b2a93'')
       = \<lparr>state = initial_session\<lparr>sess_I := JString ''alice'', sess_A := N\<rparr>,
          effects = [Close], thrown = None\<rparr>"
  using phase2_zero_key [of "login ''alice'' ''aad9eae2b53d86fb885199eacf14cd65f986251ee9f942e597146c49dc4c38e84c4424dff90fc28ecd66113795dffe53a6c5501f618bfde89c174d846b086d29763979fc91eac2afadb511abde3d7bd67f318cdc292e9a396a6ccf5f6c240c1021928b855b67f0ae62932deb75a6bcf70c718ccd960d5358e37b7671a98b2a93''"
      "\<lparr>data_I = JString ''alice'', data_A = JString ''aad9eae2b53d86fb885199eacf14cd65f986251ee9f942e597146c49dc4c38e84c4424dff90fc28ecd66113795dffe53a6c5501f618bfde89c174d846b086d29763979fc91eac2afadb511abde3d7bd67f318cdc292e9a396a6ccf5f6c240c1021928b855b67f0ae62932deb75a6bcf70c718ccd960d5358e37b7671a98b2a93'', data_C_M = JUndefined\<rparr>"
      N length_digest 7 sample_world initial_session]
    BigInt_0x_N
  by (simp add: login_def)

text \<open>
  Claim C5: on every message of phase 5 the session computes
  \<open>S = bigIntExponentiation (A * bigIntExponentiation v u N) b N\<close> from its variables,
  stores the hash of \<open>S\<close> in \<^verbatim>\<open>_K\<close> and sends the message with serial 6.
\<close>

theorem phase5_session_key:
  assumes sha: "\<forall>t. sha256 t \<noteq> []" and m: "serial m = Some 5"
  shows "\<exists>x S K.
           bigIntExponentiation (sess_v st) (sess_u st) N = Inr x
         \<and> bigIntExponentiation (sess_A st * x) (sess_b st) N = Inr S
         \<and> hash sha256 [JBigInt S] = Inr K
         \<and> on_message sha256 kv w st m
             = \<lparr>state = st\<lparr>sess_K := K\<rparr>, effects = [Send (Serial 6)], thrown = None\<rparr>"
proof -
  obtain x where x: "bigIntExponentiation (sess_v st) (sess_u st) N = Inr x"
    using bigIntExponentiation_N by blast
  obtain S where S: "bigIntExponentiation (sess_A st * x) (sess_b st) N = Inr S"
    using bigIntExponentiation_N by blast
  obtain K where K: "hash sha256 [JBigInt S] = Inr K"
    using hash_total [OF sha] by blast
  have "on_message sha256 kv w st m
          = \<lparr>state = st\<lparr>sess_K := K\<rparr>, effects = [Send (Serial 6)], thrown = None\<rparr>"
    using m by (simp add: on_message_def phase5_def x S K returned_def)
  with x S K show ?thesis
    by blast
qed

theorem phase5_session_key_witness:
  "(\<forall>t. length_digest t \<noteq> [])
   \<and> serial \<lparr>serial = Some 5, data = None\<rparr> = Some 5
   \<and> bigIntExponentiation 31 3 N = Inr 29791
   \<and> bigIntExponentiation (5 * 29791) 3 N = Inr 3304952770083875
   \<and> hash length_digest [JBigInt 3304952770083875] = Inr 16
   \<and> on_message length_digest 7 sample_world
        (initial_session\<lparr>sess_A := 5, sess_b := 3, sess_v := 31, sess_u := 3\<rparr>)
        \<lparr>serial = Some 5, data = None\<rparr>
       = \<lparr>state = initial_session\<lparr>sess_A := 5, sess_b := 3, sess_v := 31, sess_u := 3, sess_K := 16\<rparr>,
          effects = [Send (Serial 6)], thrown = None\<rparr>"
proof -
  have x: "bigIntExponentiation 31 3 N = Inr 29791"
    using bigIntExponentiation_rem [of 3 N 31] by (simp add: N_def bigint_rem_def)
  have S: "bigIntExponentiation (5 * 29791) 3 N = Inr 3304952770083875"
    using bigIntExponentiation_rem [of 3 N "5 * 29791"] by (simp add: N_def bigint_rem_def)
  have "length (dec_digits 3304952770083875) = Suc 15"
    by (rule length_dec_digits) simp_all
  then have K: "hash length_digest [JBigInt 3304952770083875] = Inr 16"
    by (simp add: hash_length_digest bigint_toString_def)
  from phase5_session_key [of length_digest "\<lparr>serial = Some 5, data = None\<rparr>"
      "initial_session\<lparr>sess_A := 5, sess_b := 3, sess_v := 31, sess_u := 3\<rparr>" 7 sample_world]
    length_digest_nonempty x S K
  show ?thesis
    by (auto simp add: initial_session_def)
qed

text \<open>
  Claim C4: a message of phase 2 whose identity has no row in the user store gets an
  error notification and the connection is closed. The code does that when the store
  reports an error (\<open>phase2_store_error\<close>); when the store returns no row, the callback
  raises TypeError on \<^verbatim>\<open>rows[0]\<close>, after the query and before any send or close
  (\<open>phase2_no_rows\<close>). Here at the identity \<^verbatim>\<open>nobody\<close> on the sample store.
\<close>

theorem phase2_unknown_identity:
  "on_message sha256 kv sample_world st (login ''nobody'' ''5'')
     = \<lparr>state = st\<lparr>sess_I := JString ''nobody'', sess_A := 5\<rparr>,
        effects = [DbAll (JString ''nobody'')], thrown = Some TypeError\<rparr>"
proof -
  have "BigInt_0x ''5'' = Inr 5"
    by (simp add: BigInt_0x_def hex_digit_value_def)
  moreover have "(5::int) mod N \<noteq> 0"
    by (simp add: N_def)
  ultimately show ?thesis
    using phase2_no_rows [of "login ''nobody'' ''5''"
        "\<lparr>data_I = JString ''nobody'', data_A = JString ''5'', data_C_M = JUndefined\<rparr>"
        5 sample_world sha256 kv st]
    by (simp add: login_def sample_world_def)
qed

text \<open>
  Claim C9: a message whose serial is none of 2, 3, 5, 7 is only logged, and the handler
  does not fail, with or without \<^verbatim>\<open>data\<close>. With \<^verbatim>\<open>data\<close> that is so
  (\<open>unexpected_with_data\<close>); without, reading \<^verbatim>\<open>data.error\<close> raises TypeError. Here at
  the message \<^verbatim>\<open>{"serial": 4}\<close>.
\<close>

theorem unexpected_without_data:
  "on_message sha256 kv w st \<lparr>serial = Some 4, data = None\<rparr>
     = \<lparr>state = st, effects = [], thrown = Some TypeError\<rparr>"
  by (simp add: on_message_def unexpected_def throw_def)

text \<open>
  Claim C6, as stated: over the messages of one session every variable is written at
  most once, so a second message of phase 2 does not overwrite what the first one set.
  It fails: after the login of \<^verbatim>\<open>alice\<close> has been answered with serial 3, a login of
  \<^verbatim>\<open>bob\<close> on the same connection is handled like the first one and replaces
  \<^verbatim>\<open>_I\<close>, \<^verbatim>\<open>_A\<close>, \<^verbatim>\<open>_s\<close>, \<^verbatim>\<open>_v\<close> and \<^verbatim>\<open>_B\<close>.
\<close>

theorem replayed_phase2_overwrites_counterexample:
  "run length_digest 7 initial_session [(sample_world, login ''alice'' ''5'')]
     = (\<lparr>sess_I = JString ''alice'', sess_A = 5, sess_B = 225, sess_b = 3,
         sess_s = JBigInt 10, sess_v = 31, sess_u = 0, sess_K = 0\<rparr>,
        [DbAll (JString ''alice''), Send (SerialSB 3 ''0a'' ''e1'')])
   \<and> run length_digest 7 initial_session
         [(sample_world, login ''alice'' ''5''), (sample_world, login ''bob'' ''6'')]
     = (\<lparr>sess_I = JString ''bob'', sess_A = 6, sess_B = 337, sess_b = 3,
         sess_s = JBigInt 11, sess_v = 47, sess_u = 0, sess_K = 0\<rparr>,
        [DbAll (JString ''alice''), Send (SerialSB 3 ''0a'' ''e1''),
         DbAll (JString ''bob''), Send (SerialSB 3 ''0b'' ''151'')])"
  by (simp add: login_alice login_bob initial_session_def)

text \<open>
  Claim C6, amended: every variable is written only by the handler of the phase that
  defines it. Over every sequence of messages, the variables of phase 2 are unchanged
  when no message has serial 2, \<^verbatim>\<open>_u\<close> is unchanged when none has serial 3, and
  \<^verbatim>\<open>_K\<close> is unchanged when none has serial 5. How often a handler writes its own
  variables is not part of the statement.
\<close>

theorem fields_written_by_own_phase:
  "((\<forall>e \<in> set evs. serial (snd e) \<noteq> Some 2) \<longrightarrow>
      phase2_fields (fst (run sha256 kv st evs)) = phase2_fields st)
   \<and> ((\<forall>e \<in> set evs. serial (snd e) \<noteq> Some 3) \<longrightarrow>
      sess_u (fst (run sha256 kv st evs)) = sess_u st)
   \<and> ((\<forall>e \<in> set evs. serial (snd e) \<noteq> Some 5) \<longrightarrow>
      sess_K (fst (run sha256 kv st evs)) = sess_K st)"
proof (induction evs arbitrary: st)
  case Nil
  show ?case by simp
next
  case (Cons e evs)
  obtain w m where e: "e = (w, m)"
    by (cases e)
  let ?st = "state (on_message sha256 kv w st m)"
  have step: "fst (run sha256 kv st ((w, m) # evs)) = fst (run sha256 kv ?st evs)"
    by (simp add: Let_def split: prod.split)
  show ?case
    unfolding e step
    using Cons.IH [of ?st] on_message_frame [of m sha256 kv w st]
    by simp
qed

theorem fields_written_by_own_phase_witness:
  "serial \<lparr>serial = Some 3, data = None\<rparr> \<noteq> Some 2
   \<and> serial \<lparr>serial = Some 5, data = None\<rparr> \<noteq> Some 2
   \<and> phase2_fields (fst (run length_digest 7 initial_session
         [(sample_world, \<lparr>serial = Some 3, data = None\<rparr>),
          (sample_world, \<lparr>serial = Some 5, data = None\<rparr>)])) = phase2_fields initial_session
   \<and> serial (login ''alice'' ''5'') \<noteq> Some 3 \<and> serial (proof_message ''b'') \<noteq> Some 3
   \<and> serial (login ''alice'' ''5'') \<noteq> Some 5 \<and> serial (proof_message ''b'') \<noteq> Some 5
   \<and> sess_u (fst (run length_digest 7 initial_session
         [(sample_world, login ''alice'' ''5''), (sample_world, proof_message ''b'')])) = 0
   \<and> sess_K (fst (run length_digest 7 initial_session
         [(sample_world, login ''alice'' ''5''), (sample_world, proof_message ''b'')])) = 0"
  using fields_written_by_own_phase [of "[(sample_world, \<lparr>serial = Some 3, data = None\<rparr>),
          (sample_world, \<lparr>serial = Some 5, data = None\<rparr>)]" length_digest 7 initial_session]
    fields_written_by_own_phase [of "[(sample_world, login ''alice'' ''5''),
          (sample_world, proof_message ''b'')]" length_digest 7 initial_session]
  by (simp add: login_def proof_message_def initial_session_def)

end
